theory Spec2Isabelle
  imports Main "HOL-Library.AList" "HOL-Library.Sublist"
begin

section \<open>Python values, exceptions and the errors of \<^verbatim>\<open>exceptions.py\<close>\<close>

text \<open>
  The values that pass through the library.  \<open>PFloat\<close> carries only the floats that
  have no JSON text (finite floats are left out: no property below depends on their
  decimal form); \<open>PObject\<close> is an object of the named class that the encoder has no
  text for, such as a \<^verbatim>\<open>set\<close>.  A \<^verbatim>\<open>dict\<close> keeps its insertion order and is an
  association list under string keys, as the annotation \<^verbatim>\<open>Dict[str, Any]\<close> has it.
\<close>

datatype pyfloat = NaN | PosInf | NegInf

datatype pyval =
    PNone
  | PBool bool
  | PInt int
  | PFloat pyfloat
  | PStr string
  | PList "pyval list"
  | PDict "(string \<times> pyval) list"
  | PObject string

type_synonym pydict = "(string \<times> pyval) list"

text \<open>
  A raised Python exception: its class and \<^verbatim>\<open>str(e)\<close>.  \<^verbatim>\<open>JSONDecodeError\<close> and
  \<^verbatim>\<open>UnicodeError\<close> are subclasses of \<^verbatim>\<open>ValueError\<close>, the classes below
  \<^verbatim>\<open>RecursionError\<close> are \<^verbatim>\<open>OSError\<close> and subclasses of it.
\<close>

datatype exc_class =
    TypeError | OverflowError | ValueError | JSONDecodeError | UnicodeError
  | RecursionError
  | FileNotFoundError | IsADirectoryError | NotADirectoryError | FileExistsError
  | OSError

datatype pyexn = Exn exc_class string

text \<open>
  The three classes of \<^verbatim>\<open>exceptions.py\<close>; \<open>Uncaught\<close> is a Python exception that
  leaves a function without having been translated.
\<close>

datatype error =
    JSONError string
  | JSONFileError string
  | JSONValidationError string
  | Uncaught pyexn

fun is_validation_error :: "error \<Rightarrow> bool" where
  "is_validation_error (JSONValidationError m) = True"
| "is_validation_error e = False"

section \<open>The file system\<close>

text \<open>
  A path is the list of its components below the root; the file system lists its
  entries in the order a directory scan meets them.  The root is a directory that
  always exists.
\<close>

type_synonym path = "string list"

datatype node = Dir | File string

type_synonym fs = "(path \<times> node) list"

definition node_at :: "fs \<Rightarrow> path \<Rightarrow> node option" where
  "node_at fs p = (if p = [] then Some Dir else map_of fs p)"

definition path_exists :: "fs \<Rightarrow> path \<Rightarrow> bool" where
  "path_exists fs p = (node_at fs p \<noteq> None)"

definition is_file :: "fs \<Rightarrow> path \<Rightarrow> bool" where
  "is_file fs p = (case node_at fs p of Some (File text) \<Rightarrow> True | _ \<Rightarrow> False)"

definition parent :: "path \<Rightarrow> path" where
  "parent p = butlast p"

definition name :: "path \<Rightarrow> string" where
  "name p = (if p = [] then [] else last p)"

definition path_str :: "path \<Rightarrow> string" where
  "path_str p = (if p = [] then ''/'' else concat (map (\<lambda>c. CHR ''/'' # c) p))"

text \<open>Every entry lies in a directory: the invariant of a file system.\<close>

definition wf_fs :: "fs \<Rightarrow> bool" where
  "wf_fs fs = list_all (\<lambda>(p, n). p \<noteq> [] \<and> node_at fs (parent p) = Some Dir) fs"

definition os_msg :: "string \<Rightarrow> path \<Rightarrow> string" where
  "os_msg what p = what @ '': '' @ [CHR 0x27] @ path_str p @ [CHR 0x27]"

text \<open>
  The call \<^verbatim>\<open>Path.exists()\<close> itself.  The operating system refuses a path with a
  component of more than 255 bytes, and \<^verbatim>\<open>pathlib\<close> passes that error on (it
  answers false only for a missing path, a file among the ancestors, a bad descriptor
  and a link loop); on every other path the call returns \<open>path_exists\<close>.
\<close>

definition name_max :: nat where
  "name_max = 255"

definition name_too_long :: "path \<Rightarrow> bool" where
  "name_too_long p = list_ex (\<lambda>c. name_max < length c) p"

definition exists_call :: "fs \<Rightarrow> path \<Rightarrow> pyexn + bool" where
  "exists_call fs p =
     (if name_too_long p
      then Inl (Exn OSError (os_msg ''[Errno 36] File name too long'' p))
      else Inr (path_exists fs p))"

definition open_r :: "fs \<Rightarrow> path \<Rightarrow> pyexn + string" where
  "open_r fs p =
     (case node_at fs p of
        None \<Rightarrow> Inl (Exn FileNotFoundError (os_msg ''[Errno 2] No such file or directory'' p))
      | Some Dir \<Rightarrow> Inl (Exn IsADirectoryError (os_msg ''[Errno 21] Is a directory'' p))
      | Some (File text) \<Rightarrow> Inr text)"

text \<open>Mode \<^verbatim>\<open>'w'\<close>: the file is created, or truncated when it is there.\<close>

definition open_w :: "fs \<Rightarrow> path \<Rightarrow> pyexn + fs" where
  "open_w fs p =
     (case node_at fs p of
        Some Dir \<Rightarrow> Inl (Exn IsADirectoryError (os_msg ''[Errno 21] Is a directory'' p))
      | Some (File old) \<Rightarrow> Inr (AList.update p (File []) fs)
      | None \<Rightarrow>
          (if list_ex (is_file fs) (prefixes (parent p))
           then Inl (Exn NotADirectoryError (os_msg ''[Errno 20] Not a directory'' p))
           else if \<not> path_exists fs (parent p)
           then Inl (Exn FileNotFoundError (os_msg ''[Errno 2] No such file or directory'' p))
           else Inr (AList.update p (File []) fs)))"

text \<open>
  \<^verbatim>\<open>Path.mkdir(parents=True, exist_ok=True)\<close>: nothing is created when a component
  of the path is a regular file.
\<close>

definition mkdir_parents :: "fs \<Rightarrow> path \<Rightarrow> pyexn + fs" where
  "mkdir_parents fs d =
     (if is_file fs d
      then Inl (Exn FileExistsError (os_msg ''[Errno 17] File exists'' d))
      else if list_ex (is_file fs) (prefixes d)
      then Inl (Exn NotADirectoryError (os_msg ''[Errno 20] Not a directory'' d))
      else Inr (fs @ map (\<lambda>q. (q, Dir)) (filter (\<lambda>q. \<not> path_exists fs q) (prefixes d))))"

definition unlink :: "fs \<Rightarrow> path \<Rightarrow> pyexn + fs" where
  "unlink fs p =
     (case node_at fs p of
        None \<Rightarrow> Inl (Exn FileNotFoundError (os_msg ''[Errno 2] No such file or directory'' p))
      | Some Dir \<Rightarrow> Inl (Exn IsADirectoryError (os_msg ''[Errno 21] Is a directory'' p))
      | Some (File text) \<Rightarrow> Inr (AList.delete p fs))"

text \<open>
  \<^verbatim>\<open>Path.glob\<close> with the two patterns of \<^verbatim>\<open>auto\<close>: \<^verbatim>\<open>'**/*.json'\<close> when
  \<open>recursive\<close>, \<^verbatim>\<open>'*.json'\<close> otherwise.  It yields directories as well as files.
\<close>

definition matches_json :: "string \<Rightarrow> bool" where
  "matches_json nm = suffix ''.json'' nm"

definition glob :: "fs \<Rightarrow> path \<Rightarrow> bool \<Rightarrow> path list" where
  "glob fs directory recursive =
     (if node_at fs directory \<noteq> Some Dir then []
      else filter (\<lambda>p. matches_json (name p) \<and>
                       (if recursive then strict_prefix directory p
                        else p \<noteq> [] \<and> parent p = directory))
             (map fst fs))"

text \<open>\<^verbatim>\<open>Path.stem\<close>: the name up to its last dot, when that dot is inside the name.\<close>

definition rfind_dot :: "string \<Rightarrow> nat option" where
  "rfind_dot nm =
     (if CHR ''.'' \<in> set nm
      then Some (length nm - 1 - length (takeWhile (\<lambda>c. c \<noteq> CHR ''.'') (rev nm)))
      else None)"

definition stem :: "path \<Rightarrow> string" where
  "stem p =
     (case rfind_dot (name p) of
        None \<Rightarrow> name p
      | Some i \<Rightarrow> if 0 < i \<and> i < length (name p) - 1 then take i (name p) else name p)"

section \<open>The JSON codec\<close>

text \<open>
  \<^verbatim>\<open>json.load\<close> and \<^verbatim>\<open>json.dump\<close> belong to the standard library; the operations
  take them as a parameter.  \<open>json_load\<close> maps the text of a file to the parsed value
  or to the exception raised; \<open>json_dump data indent ensure_ascii\<close> gives the text
  that has reached the file and the exception that stopped it, if one did.
\<close>

record codec =
  json_load :: "string \<Rightarrow> pyexn + pyval"
  json_dump :: "pyval \<Rightarrow> int \<Rightarrow> bool \<Rightarrow> string \<times> pyexn option"

text \<open>\<^verbatim>\<open>d[k] = v\<close> and \<^verbatim>\<open>d.update(u)\<close> on an insertion-ordered dictionary.\<close>

definition dict_set :: "pydict \<Rightarrow> string \<Rightarrow> pyval \<Rightarrow> pydict" where
  "dict_set d k v = AList.update k v d"

definition dict_update :: "pydict \<Rightarrow> pydict \<Rightarrow> pydict" where
  "dict_update d u = fold (\<lambda>(k, v) acc. dict_set acc k v) u d"

section \<open>The operations of \<^verbatim>\<open>core.py\<close>\<close>

text \<open>
  \<^verbatim>\<open>read\<close>, \<^verbatim>\<open>write\<close>, \<^verbatim>\<open>update\<close>, \<^verbatim>\<open>delete\<close>, \<^verbatim>\<open>create\<close> and \<^verbatim>\<open>auto\<close> take the answer
  of their existence checks from \<open>path_exists\<close>; \<^verbatim>\<open>exists\<close>, whose contract is about
  what the check may raise, goes through \<open>exists_call\<close>.
\<close>

text \<open>The body shared by the \<^verbatim>\<open>try\<close> blocks that open a file and parse it.\<close>

definition open_and_load :: "codec \<Rightarrow> fs \<Rightarrow> path \<Rightarrow> pyexn + pyval" where
  "open_and_load J fs p =
     (case open_r fs p of Inl e \<Rightarrow> Inl e | Inr text \<Rightarrow> json_load J text)"

fun read_except :: "path \<Rightarrow> pyexn \<Rightarrow> error" where
  "read_except file_path (Exn c m) =
     (if c = JSONDecodeError
      then JSONError (''Invalid JSON in file '' @ path_str file_path @ '': '' @ m)
      else JSONFileError (''Error reading file '' @ path_str file_path @ '': '' @ m))"

definition read :: "codec \<Rightarrow> fs \<Rightarrow> path \<Rightarrow> error + pyval" where
  "read J fs file_path =
     (if \<not> path_exists fs file_path
      then Inl (JSONFileError (''File not found: '' @ path_str file_path))
      else (case open_and_load J fs file_path of
              Inr v \<Rightarrow> Inr v
            | Inl e \<Rightarrow> Inl (read_except file_path e)))"

text \<open>\<^verbatim>\<open>except (TypeError, OverflowError, ValueError)\<close>, subclasses included.\<close>

fun not_serializable_class :: "exc_class \<Rightarrow> bool" where
  "not_serializable_class TypeError = True"
| "not_serializable_class OverflowError = True"
| "not_serializable_class ValueError = True"
| "not_serializable_class JSONDecodeError = True"
| "not_serializable_class UnicodeError = True"
| "not_serializable_class c = False"

fun write_except :: "path \<Rightarrow> pyexn \<Rightarrow> error" where
  "write_except file_path (Exn c m) =
     (if not_serializable_class c
      then JSONError (''Data is not JSON-serializable: '' @ m)
      else JSONFileError (''Error writing to file '' @ path_str file_path @ '': '' @ m))"

text \<open>
  \<^verbatim>\<open>write\<close>.  The directory is made outside the \<^verbatim>\<open>try\<close> block; inside it the file
  is opened (and so emptied) before the data is encoded, and what the encoder has
  emitted is in the file when the block is left.
\<close>

definition write_file ::
  "codec \<Rightarrow> fs \<Rightarrow> path \<Rightarrow> pyval \<Rightarrow> int \<Rightarrow> bool \<Rightarrow> bool \<Rightarrow> (error + unit) \<times> fs" where
  "write_file J fs file_path data indent ensure_ascii create_dirs =
     (case (if create_dirs \<and> \<not> path_exists fs (parent file_path)
            then mkdir_parents fs (parent file_path) else Inr fs) of
        Inl e \<Rightarrow> (Inl (Uncaught e), fs)
      | Inr fs1 \<Rightarrow>
          (case open_w fs1 file_path of
             Inl e \<Rightarrow> (Inl (write_except file_path e), fs1)
           | Inr fs2 \<Rightarrow>
               (case json_dump J data indent ensure_ascii of
                  (text, None) \<Rightarrow> (Inr (), AList.update file_path (File text) fs2)
                | (text, Some e) \<Rightarrow>
                    (Inl (write_except file_path e),
                     AList.update file_path (File text) fs2))))"

definition update ::
  "codec \<Rightarrow> fs \<Rightarrow> path \<Rightarrow> pydict \<Rightarrow> bool \<Rightarrow> (error + pydict) \<times> fs" where
  "update J fs file_path updates create_if_not_exists =
     (case (if path_exists fs file_path
            then (case read J fs file_path of
                    Inl e \<Rightarrow> Inl e
                  | Inr (PDict d) \<Rightarrow> Inr d
                  | Inr other \<Rightarrow> Inr [])
            else if create_if_not_exists then Inr []
            else Inl (JSONFileError (''File not found: '' @ path_str file_path))) of
        Inl e \<Rightarrow> (Inl e, fs)
      | Inr data \<Rightarrow>
          (case write_file J fs file_path (PDict (dict_update data updates)) 4 False True of
             (Inl e, fs') \<Rightarrow> (Inl e, fs')
           | (Inr u, fs') \<Rightarrow> (Inr (dict_update data updates), fs')))"

definition delete :: "fs \<Rightarrow> path \<Rightarrow> (error + bool) \<times> fs" where
  "delete fs file_path =
     (if \<not> path_exists fs file_path then (Inr False, fs)
      else (case unlink fs file_path of
              Inr fs' \<Rightarrow> (Inr True, fs')
            | Inl (Exn c m) \<Rightarrow>
                (Inl (JSONFileError (''Error deleting file '' @ path_str file_path @ '': '' @ m)),
                 fs)))"

definition create ::
  "codec \<Rightarrow> fs \<Rightarrow> path \<Rightarrow> pyval \<Rightarrow> bool \<Rightarrow> int \<Rightarrow> bool \<Rightarrow> (error + bool) \<times> fs" where
  "create J fs file_path data overwrite indent ensure_ascii =
     (if path_exists fs file_path \<and> \<not> overwrite then (Inr False, fs)
      else (case write_file J fs file_path (if data = PNone then PDict [] else data)
                   indent ensure_ascii True of
              (Inl e, fs') \<Rightarrow> (Inl e, fs')
            | (Inr u, fs') \<Rightarrow> (Inr True, fs')))"

text \<open>
  \<^verbatim>\<open>exists\<close>.  The existence check of line 210 stands before the \<^verbatim>\<open>try\<close> block of
  lines 213 to 218, so what the check raises is caught by nothing.
\<close>

definition exists :: "codec \<Rightarrow> fs \<Rightarrow> path \<Rightarrow> error + bool" where
  "exists J fs file_path =
     (case exists_call fs file_path of
        Inl e \<Rightarrow> Inl (Uncaught e)
      | Inr found \<Rightarrow>
          if \<not> found then Inr False
          else (case open_and_load J fs file_path of
                  Inr v \<Rightarrow> Inr True
                | Inl e \<Rightarrow> Inr False))"

fun auto_except :: "path \<Rightarrow> pyexn \<Rightarrow> error" where
  "auto_except json_file (Exn c m) =
     (if c = JSONDecodeError
      then JSONError (''Error decoding JSON file '' @ path_str json_file @ '': '' @ m)
      else JSONFileError (''Error reading file '' @ path_str json_file @ '': '' @ m))"

text \<open>The loop of \<^verbatim>\<open>auto\<close> over the paths of the glob, \<open>result\<close> being the dictionary so far.\<close>

fun load_all :: "codec \<Rightarrow> fs \<Rightarrow> path list \<Rightarrow> pydict \<Rightarrow> error + pydict" where
  "load_all J fs [] result = Inr result"
| "load_all J fs (json_file # rest) result =
     (if is_file fs json_file
      then (case open_and_load J fs json_file of
              Inl e \<Rightarrow> Inl (auto_except json_file e)
            | Inr v \<Rightarrow> load_all J fs rest (dict_set result (stem json_file) v))
      else load_all J fs rest result)"

definition auto ::
  "codec \<Rightarrow> fs \<Rightarrow> path \<Rightarrow> bool \<Rightarrow> bool \<Rightarrow> (error + pydict) \<times> fs" where
  "auto J fs directory recursive create_if_not_exists =
     (if \<not> path_exists fs directory
      then (if create_if_not_exists
            then (case mkdir_parents fs directory of
                    Inl e \<Rightarrow> (Inl (Uncaught e), fs)
                  | Inr fs' \<Rightarrow> (Inr [], fs'))
            else (Inl (JSONFileError (''Directory not found: '' @ path_str directory)), fs))
      else (load_all J fs (glob fs directory recursive) [], fs))"

section \<open>A small codec for ground instances\<close>

text \<open>
  An executable codec in the manner of \<^verbatim>\<open>json.dump\<close> and \<^verbatim>\<open>json.load\<close>, for the
  instances at concrete inputs: \<^verbatim>\<open>null\<close>, booleans, integers, the non-finite floats
  under their JavaScript names (the encoder's default \<^verbatim>\<open>allow_nan=True\<close>), strings of
  printable ASCII, arrays and objects.  The encoder emits its text piece by piece, so
  an object it has no text for stops it after the pieces before it.  The theorems on
  the operations hold for every codec and do not use this one.
\<close>

definition digit_char :: "nat \<Rightarrow> char" where
  "digit_char d = ''0123456789'' ! d"

fun show_nat :: "nat \<Rightarrow> string" where
  "show_nat n = (if n < 10 then [digit_char n] else show_nat (n div 10) @ [digit_char (n mod 10)])"

definition show_int :: "int \<Rightarrow> string" where
  "show_int i = (if i < 0 then CHR ''-'' # show_nat (nat (- i)) else show_nat (nat i))"

definition escape_char :: "char \<Rightarrow> string" where
  "escape_char c = (if c = CHR 0x22 \<or> c = CHR 0x5C then [CHR 0x5C, c] else [c])"

definition encode_str :: "string \<Rightarrow> string" where
  "encode_str s = CHR 0x22 # concat (map escape_char s) @ [CHR 0x22]"

definition newline_indent :: "int \<Rightarrow> nat \<Rightarrow> string" where
  "newline_indent indent level = CHR 0x0A # replicate (nat indent * level) CHR '' ''"

fun encode :: "int \<Rightarrow> nat \<Rightarrow> pyval \<Rightarrow> string \<times> pyexn option"
and encode_items :: "int \<Rightarrow> nat \<Rightarrow> pyval list \<Rightarrow> string \<times> pyexn option"
and encode_members :: "int \<Rightarrow> nat \<Rightarrow> (string \<times> pyval) list \<Rightarrow> string \<times> pyexn option"
where
  "encode ind lvl PNone = (''null'', None)"
| "encode ind lvl (PBool b) = (if b then ''true'' else ''false'', None)"
| "encode ind lvl (PInt i) = (show_int i, None)"
| "encode ind lvl (PFloat NaN) = (''NaN'', None)"
| "encode ind lvl (PFloat PosInf) = (''Infinity'', None)"
| "encode ind lvl (PFloat NegInf) = (''-Infinity'', None)"
| "encode ind lvl (PStr s) = (encode_str s, None)"
| "encode ind lvl (PList []) = (''[]'', None)"
| "encode ind lvl (PList (x # xs)) =
     (case encode_items ind (Suc lvl) (x # xs) of
        (t, None) \<Rightarrow>
          (''['' @ newline_indent ind (Suc lvl) @ t @ newline_indent ind lvl @ '']'', None)
      | (t, Some e) \<Rightarrow> (''['' @ newline_indent ind (Suc lvl) @ t, Some e))"
| "encode ind lvl (PDict []) = (''{}'', None)"
| "encode ind lvl (PDict (kv # kvs)) =
     (case encode_members ind (Suc lvl) (kv # kvs) of
        (t, None) \<Rightarrow>
          (''{'' @ newline_indent ind (Suc lvl) @ t @ newline_indent ind lvl @ ''}'', None)
      | (t, Some e) \<Rightarrow> (''{'' @ newline_indent ind (Suc lvl) @ t, Some e))"
| "encode ind lvl (PObject cls) =
     ([], Some (Exn TypeError (''Object of type '' @ cls @ '' is not JSON serializable'')))"
| "encode_items ind lvl [] = ([], None)"
| "encode_items ind lvl [x] = encode ind lvl x"
| "encode_items ind lvl (x # y # ys) =
     (case encode ind lvl x of
        (t, Some e) \<Rightarrow> (t, Some e)
      | (t, None) \<Rightarrow>
          (case encode_items ind lvl (y # ys) of
             (t', r) \<Rightarrow> (t @ '','' @ newline_indent ind lvl @ t', r)))"
| "encode_members ind lvl [] = ([], None)"
| "encode_members ind lvl [(k, v)] =
     (case encode ind lvl v of (t, r) \<Rightarrow> (encode_str k @ '': '' @ t, r))"
| "encode_members ind lvl ((k, v) # kv # kvs) =
     (case encode ind lvl v of
        (t, Some e) \<Rightarrow> (encode_str k @ '': '' @ t, Some e)
      | (t, None) \<Rightarrow>
          (case encode_members ind lvl (kv # kvs) of
             (t', r) \<Rightarrow> (encode_str k @ '': '' @ t @ '','' @ newline_indent ind lvl @ t', r)))"


definition is_ws :: "char \<Rightarrow> bool" where
  "is_ws c = (c = CHR '' '' \<or> c = CHR 0x0A \<or> c = CHR 0x09 \<or> c = CHR 0x0D)"

definition skip_ws :: "string \<Rightarrow> string" where
  "skip_ws s = dropWhile is_ws s"

definition is_digit :: "char \<Rightarrow> bool" where
  "is_digit c = (c \<in> set ''0123456789'')"

definition digit_val :: "char \<Rightarrow> nat" where
  "digit_val c = length (takeWhile (\<lambda>d. d \<noteq> c) ''0123456789'')"

definition nat_of_digits :: "string \<Rightarrow> nat" where
  "nat_of_digits ds = foldl (\<lambda>n c. 10 * n + digit_val c) 0 ds"

fun parse_string :: "string \<Rightarrow> (string \<times> string) option" where
  "parse_string [] = None"
| "parse_string (c # cs) =
     (if c = CHR 0x22 then Some ([], cs)
      else if c = CHR 0x5C then
        (case cs of
           [] \<Rightarrow> None
         | e # cs' \<Rightarrow>
             if e = CHR 0x22 \<or> e = CHR 0x5C
             then map_option (\<lambda>(s, r). (e # s, r)) (parse_string cs')
             else None)
      else map_option (\<lambda>(s, r). (c # s, r)) (parse_string cs))"

definition literal :: "string \<Rightarrow> pyval \<Rightarrow> string \<Rightarrow> (pyval \<times> string) option" where
  "literal lit v s = (if prefix lit s then Some (v, drop (length lit) s) else None)"

definition parse_nat :: "string \<Rightarrow> (nat \<times> string) option" where
  "parse_nat s =
     (case s of
        [] \<Rightarrow> None
      | c # cs \<Rightarrow>
          if c = CHR ''0'' then Some (0, cs)
          else if is_digit c
          then Some (nat_of_digits (takeWhile is_digit s), dropWhile is_digit s)
          else None)"

definition parse_scalar :: "string \<Rightarrow> (pyval \<times> string) option" where
  "parse_scalar s =
     (case s of
        [] \<Rightarrow> None
      | c # cs \<Rightarrow>
          if c = CHR ''n'' then literal ''null'' PNone s
          else if c = CHR ''t'' then literal ''true'' (PBool True) s
          else if c = CHR ''f'' then literal ''false'' (PBool False) s
          else if c = CHR ''N'' then literal ''NaN'' (PFloat NaN) s
          else if c = CHR ''I'' then literal ''Infinity'' (PFloat PosInf) s
          else if c = CHR ''-'' then
            (if prefix ''I'' cs then literal ''-Infinity'' (PFloat NegInf) s
             else map_option (\<lambda>(n, r). (PInt (- int n), r)) (parse_nat cs))
          else map_option (\<lambda>(n, r). (PInt (int n), r)) (parse_nat s))"

fun parse_value :: "nat \<Rightarrow> string \<Rightarrow> (pyval \<times> string) option"
and parse_items :: "nat \<Rightarrow> string \<Rightarrow> pyval list \<Rightarrow> (pyval \<times> string) option"
and parse_members :: "nat \<Rightarrow> string \<Rightarrow> pydict \<Rightarrow> (pyval \<times> string) option"
where
  "parse_value 0 s = None"
| "parse_value (Suc n) s =
     (case skip_ws s of
        [] \<Rightarrow> None
      | c # cs \<Rightarrow>
          if c = CHR ''['' then
            (case skip_ws cs of
               [] \<Rightarrow> None
             | c' # cs' \<Rightarrow> if c' = CHR '']'' then Some (PList [], cs') else parse_items n cs [])
          else if c = CHR ''{'' then
            (case skip_ws cs of
               [] \<Rightarrow> None
             | c' # cs' \<Rightarrow> if c' = CHR ''}'' then Some (PDict [], cs') else parse_members n cs [])
          else if c = CHR 0x22 then map_option (\<lambda>(t, r). (PStr t, r)) (parse_string cs)
          else parse_scalar (c # cs))"
| "parse_items 0 s acc = None"
| "parse_items (Suc n) s acc =
     (case parse_value n s of
        None \<Rightarrow> None
      | Some (v, r) \<Rightarrow>
          (case skip_ws r of
             [] \<Rightarrow> None
           | c # cs \<Rightarrow>
               if c = CHR '','' then parse_items n cs (acc @ [v])
               else if c = CHR '']'' then Some (PList (acc @ [v]), cs)
               else None))"
| "parse_members 0 s acc = None"
| "parse_members (Suc n) s acc =
     (case skip_ws s of
        [] \<Rightarrow> None
      | q # cs \<Rightarrow>
          if q \<noteq> CHR 0x22 then None
          else
            (case parse_string cs of
               None \<Rightarrow> None
             | Some (k, r) \<Rightarrow>
                 (case skip_ws r of
                    [] \<Rightarrow> None
                  | c # cs' \<Rightarrow>
                      if c \<noteq> CHR '':'' then None
                      else
                        (case parse_value n cs' of
                           None \<Rightarrow> None
                         | Some (v, r') \<Rightarrow>
                             (case skip_ws r' of
                                [] \<Rightarrow> None
                              | c2 # cs2 \<Rightarrow>
                                  if c2 = CHR '','' then parse_members n cs2 (dict_set acc k v)
                                  else if c2 = CHR ''}'' then Some (PDict (dict_set acc k v), cs2)
                                  else None)))))"

definition mini_load :: "string \<Rightarrow> pyexn + pyval" where
  "mini_load text =
     (case parse_value (Suc (length text)) text of
        None \<Rightarrow> Inl (Exn JSONDecodeError ''Expecting value'')
      | Some (v, r) \<Rightarrow>
          if skip_ws r = [] then Inr v else Inl (Exn JSONDecodeError ''Extra data''))"

definition mini_dump :: "pyval \<Rightarrow> int \<Rightarrow> bool \<Rightarrow> string \<times> pyexn option" where
  "mini_dump data indent ensure_ascii = encode indent 0 data"

definition mini_json :: codec where
  "mini_json = \<lparr>json_load = mini_load, json_dump = mini_dump\<rparr>"

section \<open>Notions of the specification\<close>

text \<open>
  \<^verbatim>\<open>isinstance(data, dict)\<close> as a predicate, and a path whose file opens and parses.
\<close>

fun is_dict :: "pyval \<Rightarrow> bool" where
  "is_dict (PDict d) = True"
| "is_dict v = False"

definition parses :: "codec \<Rightarrow> fs \<Rightarrow> path \<Rightarrow> bool" where
  "parses J fs p = (case open_and_load J fs p of Inr v \<Rightarrow> True | Inl e \<Rightarrow> False)"

text \<open>
  The bulk load in the words of the specification: the regular files named \<^verbatim>\<open>*.json\<close>
  in the directory, or anywhere below it when \<open>recursive\<close>, in traversal order; the
  value under a key is the parsed content of the latest of them with that stem.
\<close>

definition matched_files :: "fs \<Rightarrow> path \<Rightarrow> bool \<Rightarrow> path list" where
  "matched_files fs d recursive =
     filter (\<lambda>p. is_file fs p \<and> suffix ''.json'' (name p) \<and>
                 (if recursive then strict_prefix d p else p \<noteq> [] \<and> parent p = d))
       (map fst fs)"

definition latest_with_stem :: "path list \<Rightarrow> string \<Rightarrow> path option" where
  "latest_with_stem files k = List.find (\<lambda>p. stem p = k) (rev files)"

definition bulk_result :: "codec \<Rightarrow> fs \<Rightarrow> path list \<Rightarrow> string \<Rightarrow> pyval option" where
  "bulk_result J fs files k =
     (case latest_with_stem files k of
        None \<Rightarrow> None
      | Some p \<Rightarrow> (case open_and_load J fs p of Inr v \<Rightarrow> Some v | Inl e \<Rightarrow> None))"

section \<open>Facts about the file system and dictionaries\<close>

lemma node_at_update:
  "node_at (AList.update p n fs) q =
     (if q = [] then Some Dir else if q = p then Some n else node_at fs q)"
  by (simp add: node_at_def update_conv')

lemma file_not_root: "node_at fs p = Some (File text) \<Longrightarrow> p \<noteq> []"
  by (auto simp: node_at_def)

lemma open_and_load_file:
  "node_at fs p = Some (File text) \<Longrightarrow> open_and_load J fs p = json_load J text"
  by (simp add: open_and_load_def open_r_def)

lemma open_and_load_dir:
  "node_at fs p = Some Dir \<Longrightarrow> \<exists>m. open_and_load J fs p = Inl (Exn IsADirectoryError m)"
  by (simp add: open_and_load_def open_r_def)

lemma read_file:
  "node_at fs p = Some (File text) \<Longrightarrow>
   read J fs p = (case json_load J text of Inr v \<Rightarrow> Inr v | Inl e \<Rightarrow> Inl (read_except p e))"
  by (simp add: read_def path_exists_def open_and_load_file)

lemma map_of_const_map:
  "map_of (map (\<lambda>q. (q, c)) xs) q = (if q \<in> set xs then Some c else None)"
  by (induction xs) auto


lemma node_at_mkdir:
  assumes "mkdir_parents fs d = Inr fs'"
  shows "node_at fs' q =
           (if path_exists fs q then node_at fs q else if prefix q d then Some Dir else None)"
proof -
  from assms have fs': "fs' = fs @ map (\<lambda>q. (q, Dir)) (filter (\<lambda>q. \<not> path_exists fs q) (prefixes d))"
    by (auto simp: mkdir_parents_def split: if_splits)
  show ?thesis
  proof (cases "q = []")
    case True
    then show ?thesis by (simp add: node_at_def path_exists_def)
  next
    case False
    then show ?thesis
      by (auto simp: fs' node_at_def path_exists_def map_add_def map_of_const_map
               split: option.splits)
  qed
qed




lemma not_dir_not_root: "node_at fs p \<noteq> Some Dir \<Longrightarrow> p \<noteq> []"
  by (auto simp: node_at_def)

text \<open>The operations that change the file system keep its invariant.\<close>

lemma set_update_subset:
  "(q, n) \<in> set (AList.update p v al) \<Longrightarrow> (q, n) = (p, v) \<or> (q, n) \<in> set al"
  by (induction al) (auto split: if_splits)

lemma wf_fs_entry:
  "wf_fs fs \<Longrightarrow> (q, n) \<in> set fs \<Longrightarrow> q \<noteq> [] \<and> node_at fs (parent q) = Some Dir"
  by (auto simp: wf_fs_def list_all_iff)

lemma wf_fs_put:
  assumes "wf_fs fs" and "p \<noteq> []" and "node_at fs (parent p) = Some Dir"
      and "node_at fs p \<noteq> Some Dir"
  shows "wf_fs (AList.update p (File t) fs)"
  unfolding wf_fs_def list_all_iff
proof (intro ballI, clarify)
  fix q n assume "(q, n) \<in> set (AList.update p (File t) fs)"
  then consider "q = p" | "(q, n) \<in> set fs"
    using set_update_subset by fastforce
  then show "q \<noteq> [] \<and> node_at (AList.update p (File t) fs) (parent q) = Some Dir"
  proof cases
    case 1
    have "length (parent p) < length p" using assms(2) by (simp add: parent_def)
    then have "parent p \<noteq> p" by auto
    with 1 assms(2,3) show ?thesis by (simp add: node_at_update)
  next
    case 2
    with assms(1) have q: "q \<noteq> []" "node_at fs (parent q) = Some Dir"
      using wf_fs_entry by blast+
    with assms(4) have "parent q \<noteq> p" by auto
    with q show ?thesis by (simp add: node_at_update)
  qed
qed

lemma wf_fs_mkdir:
  assumes "wf_fs fs" and "mkdir_parents fs d = Inr fs'"
  shows "wf_fs fs'"
proof -
  from assms(2) have nofile: "\<not> list_ex (is_file fs) (prefixes d)"
    and fs': "fs' = fs @ map (\<lambda>q. (q, Dir)) (filter (\<lambda>q. \<not> path_exists fs q) (prefixes d))"
    by (auto simp: mkdir_parents_def split: if_splits)
  have dirs: "node_at fs' q = Some Dir" if "prefix q d" for q
  proof (cases "node_at fs q")
    case None
    with that show ?thesis by (simp add: node_at_mkdir [OF assms(2)] path_exists_def)
  next
    case (Some n)
    from nofile that have "\<not> is_file fs q" by (simp add: list_ex_iff)
    with Some have "n = Dir" by (cases n) (simp_all add: is_file_def)
    with Some show ?thesis by (simp add: node_at_mkdir [OF assms(2)] path_exists_def)
  qed
  show ?thesis
    unfolding wf_fs_def list_all_iff
  proof (intro ballI, clarify)
    fix q n assume "(q, n) \<in> set fs'"
    then consider "(q, n) \<in> set fs" | "prefix q d" "\<not> path_exists fs q"
      by (auto simp: fs')
    then show "q \<noteq> [] \<and> node_at fs' (parent q) = Some Dir"
    proof cases
      case 1
      with assms(1) have "q \<noteq> []" "node_at fs (parent q) = Some Dir"
        using wf_fs_entry by blast+
      then show ?thesis by (simp add: node_at_mkdir [OF assms(2)] path_exists_def)
    next
      case 2
      then have "q \<noteq> []" by (auto simp: path_exists_def node_at_def)
      moreover have "prefix (parent q) d"
        using 2(1) prefixeq_butlast [of q] unfolding parent_def by (rule prefix_order.order_trans [rotated])
      ultimately show ?thesis by (simp add: dirs)
    qed
  qed
qed

text \<open>\<^verbatim>\<open>write\<close> keeps the invariant, whether it succeeds or fails.\<close>

lemma wf_fs_write_file:
  assumes "wf_fs fs"
  shows "wf_fs (snd (write_file J fs p data indent ensure_ascii create_dirs))"
proof -
  define prep where "prep = (if create_dirs \<and> \<not> path_exists fs (parent p)
            then mkdir_parents fs (parent p) else Inr fs)"
  show ?thesis
  proof (cases prep)
    case (Inl e)
    then show ?thesis using assms by (simp add: write_file_def prep_def)
  next
    case (Inr fs1)
    then have wf1: "wf_fs fs1"
      using assms wf_fs_mkdir by (auto simp: prep_def split: if_splits)
    show ?thesis
    proof (cases "open_w fs1 p")
      case (Inl e)
      with Inr wf1 show ?thesis by (simp add: write_file_def prep_def)
    next
      case fs2: (Inr fs2)
      then have up: "fs2 = AList.update p (File []) fs1" and nd: "node_at fs1 p \<noteq> Some Dir"
        by (auto simp: open_w_def split: option.splits node.splits if_splits)
      from nd have p: "p \<noteq> []" by (rule not_dir_not_root)
      have par: "node_at fs1 (parent p) = Some Dir"
      proof (cases "node_at fs1 p")
        case None
        with fs2 have ex: "path_exists fs1 (parent p)"
          and nf: "\<not> list_ex (is_file fs1) (prefixes (parent p))"
          by (auto simp: open_w_def split: if_splits)
        from nf have "\<not> is_file fs1 (parent p)" by (simp add: list_ex_iff)
        with ex show ?thesis
          by (auto simp: path_exists_def is_file_def split: option.splits node.splits)
      next
        case (Some n)
        with p have "(p, n) \<in> set fs1" by (auto simp: node_at_def dest: map_of_SomeD)
        with wf1 show ?thesis using wf_fs_entry by blast
      qed
      have "wf_fs (AList.update p (File (fst (json_dump J data indent ensure_ascii))) fs1)"
        using wf1 p par nd by (rule wf_fs_put)
      with Inr fs2 up show ?thesis
        by (auto simp: write_file_def prep_def split: prod.splits option.splits)
    qed
  qed
qed

lemma wf_parent:
  assumes "wf_fs fs" and "node_at fs p = Some (File content)"
  shows "path_exists fs (parent p)"
proof -
  from assms(2) have "p \<noteq> []" and "map_of fs p = Some (File content)"
    by (auto simp: node_at_def split: if_splits)
  then have "(p, File content) \<in> set fs" by (simp add: map_of_SomeD)
  with assms(1) have "node_at fs (parent p) = Some Dir"
    by (auto simp: wf_fs_def list_all_iff)
  then show ?thesis by (simp add: path_exists_def)
qed

lemma write_file_existing:
  assumes "wf_fs fs" and "node_at fs p = Some (File content)"
  shows "write_file J fs p data indent ensure_ascii create_dirs =
           ((case snd (json_dump J data indent ensure_ascii) of
               None \<Rightarrow> Inr ()
             | Some e \<Rightarrow> Inl (write_except p e)),
            AList.update p (File (fst (json_dump J data indent ensure_ascii))) fs)"
  using assms wf_parent [OF assms]
  by (auto simp: write_file_def open_w_def split: prod.splits option.splits)

lemma dict_update_Cons:
  "dict_update d ((k, v) # u) = dict_update (AList.update k v d) u"
  by (simp add: dict_update_def dict_set_def)

lemma lookup_dict_update:
  "distinct (map fst u) \<Longrightarrow>
   map_of (dict_update d u) x = (case map_of u x of Some v \<Rightarrow> Some v | None \<Rightarrow> map_of d x)"
proof (induction u arbitrary: d)
  case Nil
  then show ?case by (simp add: dict_update_def)
next
  case (Cons kv u)
  obtain k v where kv: "kv = (k, v)" by (cases kv)
  from Cons.prems kv have k: "map_of u k = None" and d: "distinct (map fst u)"
    by (auto simp: map_of_eq_None_iff)
  show ?case
    using k by (auto simp: kv dict_update_Cons Cons.IH [OF d] update_conv' split: option.splits)
qed

lemma map_of_dict_update:
  "distinct (map fst u) \<Longrightarrow> map_of (dict_update d u) = map_of d ++ map_of u"
  by (rule ext) (simp add: lookup_dict_update map_add_def)

lemma update_fresh: "k \<notin> fst ` set d \<Longrightarrow> AList.update k v d = d @ [(k, v)]"
  by (induction d) auto

lemma dict_update_fresh:
  "distinct (map fst (d @ u)) \<Longrightarrow> dict_update d u = d @ u"
proof (induction u arbitrary: d)
  case Nil
  then show ?case by (simp add: dict_update_def)
next
  case (Cons kv u)
  obtain k v where kv: "kv = (k, v)" by (cases kv)
  from Cons.prems kv have "k \<notin> fst ` set d" by auto
  then have "dict_update d (kv # u) = dict_update (d @ [(k, v)]) u"
    by (simp add: dict_update_Cons kv update_fresh)
  also have "\<dots> = (d @ [(k, v)]) @ u"
    using Cons.prems kv by (intro Cons.IH) simp
  finally show ?case by (simp add: kv)
qed

lemma stem_json: "s \<noteq> [] \<Longrightarrow> stem (d @ [s @ ''.json'']) = s"
  by (simp add: stem_def name_def rfind_dot_def)

section \<open>Reading\<close>

text \<open>
  Claim C2, as amended.  A file whose text the decoder rejects makes \<^verbatim>\<open>read\<close> fail
  with the base class \<^verbatim>\<open>JSONError\<close> (\<^verbatim>\<open>JSONValidationError\<close> is raised nowhere);
  the message is \<^verbatim>\<open>Invalid JSON in file <path>: <detail>\<close> and so contains both the
  path and the decoder's detail.
\<close>

theorem read_invalid_json:
  assumes "node_at fs p = Some (File text)"
      and "json_load J text = Inl (Exn JSONDecodeError detail)"
  shows "read J fs p = Inl (JSONError (''Invalid JSON in file '' @ path_str p @ '': '' @ detail)) \<and>
         sublist (path_str p) (''Invalid JSON in file '' @ path_str p @ '': '' @ detail) \<and>
         sublist detail (''Invalid JSON in file '' @ path_str p @ '': '' @ detail)"
proof -
  have "sublist detail ((''Invalid JSON in file '' @ path_str p @ '': '') @ detail)"
    by (rule sublist_append_leftI)
  moreover have "sublist (path_str p) (''Invalid JSON in file '' @ path_str p @ '': '' @ detail)"
    by (rule sublist_appendI)
  ultimately show ?thesis using assms by (simp add: read_file)
qed

text \<open>
  The claim as stated asks for the validation class: on a file holding \<^verbatim>\<open>not json\<close>
  the error is of the base class.
\<close>

theorem read_invalid_json_counterexample:
  "read mini_json [([''bad.json''], File ''not json'')] [''bad.json''] =
     Inl (JSONError ''Invalid JSON in file /bad.json: Expecting value'') \<and>
   \<not> is_validation_error (JSONError ''Invalid JSON in file /bad.json: Expecting value'')"
  by code_simp

theorem read_invalid_json_witness:
  "node_at [([''bad.json''], File ''not json'')] [''bad.json''] = Some (File ''not json'') \<and>
   json_load mini_json ''not json'' = Inl (Exn JSONDecodeError ''Expecting value'') \<and>
   read mini_json [([''bad.json''], File ''not json'')] [''bad.json''] =
     Inl (JSONError (''Invalid JSON in file '' @ path_str [''bad.json''] @ '': '' @ ''Expecting value''))"
proof -
  have h1: "node_at [([''bad.json''], File ''not json'')] [''bad.json''] = Some (File ''not json'')"
    by (simp add: node_at_def)
  have h2: "json_load mini_json ''not json'' = Inl (Exn JSONDecodeError ''Expecting value'')"
    by code_simp
  show ?thesis using h1 h2 read_invalid_json [OF h1 h2] by blast
qed

section \<open>Existence check\<close>

text \<open>
  On a path within the name limit \<^verbatim>\<open>exists\<close> returns a boolean, which is true exactly
  when the path is a file whose text parses; a missing path, a directory and a file
  that does not parse all give false.
\<close>

lemma exists_within_name_limit:
  assumes "\<not> name_too_long p"
  shows "exists J fs p =
     Inr (\<exists>text v. node_at fs p = Some (File text) \<and> json_load J text = Inr v)"
proof (cases "node_at fs p")
  case None
  then show ?thesis using assms by (simp add: exists_def exists_call_def path_exists_def)
next
  case (Some n)
  show ?thesis
  proof (cases n)
    case Dir
    with Some obtain m where "open_and_load J fs p = Inl (Exn IsADirectoryError m)"
      using open_and_load_dir by blast
    with Some Dir show ?thesis
      using assms by (simp add: exists_def exists_call_def path_exists_def)
  next
    case (File content)
    with Some have "open_and_load J fs p = json_load J content"
      by (simp add: open_and_load_file)
    with Some File show ?thesis
      using assms
      by (cases "json_load J content") (simp_all add: exists_def exists_call_def path_exists_def)
  qed
qed

lemma exists_examples:
  "exists mini_json [([''d''], Dir), ([''d'', ''bad.json''], File ''not json'')] [''d'', ''bad.json''] =
     Inr False"
  "exists mini_json [([''d''], Dir), ([''d'', ''bad.json''], File ''not json'')] [''d''] = Inr False"
  "exists mini_json [([''d''], Dir), ([''d'', ''bad.json''], File ''not json'')] [''nowhere''] = Inr False"
  "exists mini_json [([''d''], Dir), ([''d'', ''ok.json''], File ''[1, 2]'')] [''d'', ''ok.json''] = Inr True"
  by code_simp+

text \<open>
  Claim C4: \<^verbatim>\<open>exists\<close> never raises, on any path, and answers false wherever the path
  is not a file that parses.  The code does not keep to it.  On the path whose one
  component is 256 letters the existence check raises \<^verbatim>\<open>OSError\<close> (file name too
  long) before the \<^verbatim>\<open>try\<close> block is entered, and the exception leaves \<^verbatim>\<open>exists\<close>:
  the catch-all \<^verbatim>\<open>except\<close> and the docstring's \<^verbatim>\<open>False otherwise\<close> are not honoured
  there.  This holds for every codec and every file system.
\<close>

theorem exists_raises_on_long_name:
  "exists J fs [replicate 256 (CHR ''a'')] =
     Inl (Uncaught (Exn OSError (os_msg ''[Errno 36] File name too long''
                                   [replicate 256 (CHR ''a'')])))"
  by (simp add: exists_def exists_call_def name_too_long_def name_max_def)

section \<open>Writing\<close>




text \<open>
  Further instances: a path that is a directory gives a file error whatever the data;
  a rejected object leaves an empty file where there was none; a regular file among
  the components of the parent lets the \<^verbatim>\<open>mkdir\<close> exception through untranslated.
\<close>

lemma write_file_examples:
  "write_file mini_json [([''d''], Dir)] [''d''] (PObject ''set'') 4 False True =
     (Inl (JSONFileError (''Error writing to file /d: '' @ os_msg ''[Errno 21] Is a directory'' [''d''])),
      [([''d''], Dir)])"
  "write_file mini_json [] [''f.json''] (PObject ''set'') 4 False True =
     (Inl (JSONError ''Data is not JSON-serializable: Object of type set is not JSON serializable''),
      [([''f.json''], File [])])"
  "write_file mini_json [([''f''], File ''x'')] [''f'', ''sub'', ''g.json''] (PInt 1) 4 False True =
     (Inl (Uncaught (Exn NotADirectoryError (os_msg ''[Errno 20] Not a directory'' [''f'', ''sub'']))),
      [([''f''], File ''x'')])"
  by code_simp+




section \<open>Updating\<close>

text \<open>
  Claim C5.  When the file at the path parses to a dictionary \<open>m\<close> and the merged
  dictionary is one the encoder accepts, \<^verbatim>\<open>update\<close> returns \<open>m\<close> with every key of
  \<open>updates\<close> set to the value \<open>updates\<close> gives it (whole values, no merging inside
  them), and the file then holds the text of that dictionary under indent 4 without
  ASCII escaping, the default options of \<^verbatim>\<open>write\<close>.
\<close>

theorem update_shallow_merge:
  assumes "wf_fs fs"
      and "node_at fs p = Some (File content)"
      and "json_load J content = Inr (PDict m)"
      and "distinct (map fst updates)"
      and "json_dump J (PDict (dict_update m updates)) 4 False = (out, None)"
  shows "update J fs p updates create_if_not_exists =
           (Inr (dict_update m updates), AList.update p (File out) fs) \<and>
         map_of (dict_update m updates) = map_of m ++ map_of updates \<and>
         node_at (AList.update p (File out) fs) p = Some (File out)"
proof -
  have "read J fs p = Inr (PDict m)"
    using assms(2,3) by (simp add: read_file)
  moreover have "write_file J fs p (PDict (dict_update m updates)) 4 False True =
                   (Inr (), AList.update p (File out) fs)"
    using assms(5) by (simp add: write_file_existing [OF assms(1,2)])
  moreover have "path_exists fs p" using assms(2) by (simp add: path_exists_def)
  ultimately have "update J fs p updates create_if_not_exists =
           (Inr (dict_update m updates), AList.update p (File out) fs)"
    by (simp add: update_def)
  moreover have "node_at (AList.update p (File out) fs) p = Some (File out)"
    using file_not_root [OF assms(2)] by (simp add: node_at_update)
  ultimately show ?thesis using assms(4) by (simp add: map_of_dict_update)
qed

theorem update_shallow_merge_witness:
  "wf_fs [([''f.json''], File ''{\"a\": 1, \"b\": 2}'')] \<and>
   node_at [([''f.json''], File ''{\"a\": 1, \"b\": 2}'')] [''f.json''] =
     Some (File ''{\"a\": 1, \"b\": 2}'') \<and>
   json_load mini_json ''{\"a\": 1, \"b\": 2}'' = Inr (PDict [(''a'', PInt 1), (''b'', PInt 2)]) \<and>
   distinct (map fst [(''b'', PInt 3), (''c'', PInt 4)]) \<and>
   dict_update [(''a'', PInt 1), (''b'', PInt 2)] [(''b'', PInt 3), (''c'', PInt 4)] =
     [(''a'', PInt 1), (''b'', PInt 3), (''c'', PInt 4)] \<and>
   update mini_json [([''f.json''], File ''{\"a\": 1, \"b\": 2}'')] [''f.json'']
     [(''b'', PInt 3), (''c'', PInt 4)] False =
     (Inr [(''a'', PInt 1), (''b'', PInt 3), (''c'', PInt 4)],
      [([''f.json''],
        File (fst (json_dump mini_json
                     (PDict [(''a'', PInt 1), (''b'', PInt 3), (''c'', PInt 4)]) 4 False)))])"
proof -
  have h1: "wf_fs [([''f.json''], File ''{\"a\": 1, \"b\": 2}'')]"
    by code_simp
  have h2: "node_at [([''f.json''], File ''{\"a\": 1, \"b\": 2}'')] [''f.json''] =
     Some (File ''{\"a\": 1, \"b\": 2}'')"
    by code_simp
  have h3: "json_load mini_json ''{\"a\": 1, \"b\": 2}'' =
     Inr (PDict [(''a'', PInt 1), (''b'', PInt 2)])"
    by code_simp
  have h4: "distinct (map fst [(''b'', PInt 3), (''c'', PInt 4)])"
    by simp
  have d: "dict_update [(''a'', PInt 1), (''b'', PInt 2)] [(''b'', PInt 3), (''c'', PInt 4)] =
     [(''a'', PInt 1), (''b'', PInt 3), (''c'', PInt 4)]"
    by code_simp
  have h5: "json_dump mini_json
      (PDict (dict_update [(''a'', PInt 1), (''b'', PInt 2)] [(''b'', PInt 3), (''c'', PInt 4)])) 4 False =
     (fst (json_dump mini_json
             (PDict [(''a'', PInt 1), (''b'', PInt 3), (''c'', PInt 4)]) 4 False), None)"
    by code_simp
  have u: "AList.update [''f.json'']
             (File (fst (json_dump mini_json
                     (PDict [(''a'', PInt 1), (''b'', PInt 3), (''c'', PInt 4)]) 4 False)))
             [([''f.json''], File ''{\"a\": 1, \"b\": 2}'')] =
           [([''f.json''],
             File (fst (json_dump mini_json
                     (PDict [(''a'', PInt 1), (''b'', PInt 3), (''c'', PInt 4)]) 4 False)))]"
    by simp
  show ?thesis
    using h1 h2 h3 h4 d u update_shallow_merge [OF h1 h2 h3 h4 h5, of False] by simp
qed

text \<open>
  Claim C6.  When the file at the path parses to a value that is not a dictionary,
  \<^verbatim>\<open>update\<close> does not fail: it starts from the empty dictionary, and what it writes
  and returns is \<open>updates\<close> itself.
\<close>

theorem update_non_object:
  assumes "wf_fs fs"
      and "node_at fs p = Some (File content)"
      and "json_load J content = Inr v"
      and "\<not> is_dict v"
      and "distinct (map fst updates)"
      and "json_dump J (PDict updates) 4 False = (out, None)"
  shows "update J fs p updates create_if_not_exists =
           (Inr updates, AList.update p (File out) fs) \<and>
         node_at (AList.update p (File out) fs) p = Some (File out)"
proof -
  have du: "dict_update [] updates = updates"
    using assms(5) by (simp add: dict_update_fresh)
  have "read J fs p = Inr v"
    using assms(2,3) by (simp add: read_file)
  moreover have "write_file J fs p (PDict updates) 4 False True =
                   (Inr (), AList.update p (File out) fs)"
    using assms(6) by (simp add: write_file_existing [OF assms(1,2)])
  moreover have "path_exists fs p" using assms(2) by (simp add: path_exists_def)
  ultimately have "update J fs p updates create_if_not_exists =
           (Inr updates, AList.update p (File out) fs)"
    using assms(4) by (cases v) (simp_all add: update_def du)
  moreover have "node_at (AList.update p (File out) fs) p = Some (File out)"
    using file_not_root [OF assms(2)] by (simp add: node_at_update)
  ultimately show ?thesis by simp
qed

theorem update_non_object_witness:
  "wf_fs [([''f.json''], File ''[1, 2]'')] \<and>
   node_at [([''f.json''], File ''[1, 2]'')] [''f.json''] = Some (File ''[1, 2]'') \<and>
   json_load mini_json ''[1, 2]'' = Inr (PList [PInt 1, PInt 2]) \<and>
   \<not> is_dict (PList [PInt 1, PInt 2]) \<and>
   distinct (map fst [(''b'', PInt 3), (''c'', PInt 4)]) \<and>
   update mini_json [([''f.json''], File ''[1, 2]'')] [''f.json''] [(''b'', PInt 3), (''c'', PInt 4)] False =
     (Inr [(''b'', PInt 3), (''c'', PInt 4)],
      [([''f.json''],
        File (fst (json_dump mini_json (PDict [(''b'', PInt 3), (''c'', PInt 4)]) 4 False)))])"
proof -
  have h1: "wf_fs [([''f.json''], File ''[1, 2]'')]"
    by code_simp
  have h2: "node_at [([''f.json''], File ''[1, 2]'')] [''f.json''] = Some (File ''[1, 2]'')"
    by code_simp
  have h3: "json_load mini_json ''[1, 2]'' = Inr (PList [PInt 1, PInt 2])"
    by code_simp
  have h4: "\<not> is_dict (PList [PInt 1, PInt 2])"
    by simp
  have h5: "distinct (map fst [(''b'', PInt 3), (''c'', PInt 4)])"
    by simp
  have h6: "json_dump mini_json (PDict [(''b'', PInt 3), (''c'', PInt 4)]) 4 False =
     (fst (json_dump mini_json (PDict [(''b'', PInt 3), (''c'', PInt 4)]) 4 False), None)"
    by code_simp
  have u: "AList.update [''f.json'']
             (File (fst (json_dump mini_json (PDict [(''b'', PInt 3), (''c'', PInt 4)]) 4 False)))
             [([''f.json''], File ''[1, 2]'')] =
           [([''f.json''],
             File (fst (json_dump mini_json (PDict [(''b'', PInt 3), (''c'', PInt 4)]) 4 False)))]"
    by simp
  show ?thesis
    using h1 h2 h3 h4 h5 u update_non_object [OF h1 h2 h3 h4 h5 h6, of False] by simp
qed

text \<open>
  Claim C10.  When the file at the path does not parse, \<^verbatim>\<open>update\<close> fails with the
  error that \<^verbatim>\<open>read\<close> raises, and the file system is unchanged: nothing was written.
\<close>

theorem update_invalid_json_atomic:
  assumes "node_at fs p = Some (File text)"
      and "json_load J text = Inl (Exn JSONDecodeError detail)"
  shows "read J fs p = Inl (JSONError (''Invalid JSON in file '' @ path_str p @ '': '' @ detail)) \<and>
         update J fs p updates create_if_not_exists =
           (Inl (JSONError (''Invalid JSON in file '' @ path_str p @ '': '' @ detail)), fs)"
  using assms by (simp add: update_def read_file path_exists_def)

theorem update_invalid_json_atomic_witness:
  "node_at [([''bad.json''], File ''not json'')] [''bad.json''] = Some (File ''not json'') \<and>
   json_load mini_json ''not json'' = Inl (Exn JSONDecodeError ''Expecting value'') \<and>
   update mini_json [([''bad.json''], File ''not json'')] [''bad.json''] [(''k'', PInt 1)] False =
     (Inl (JSONError (''Invalid JSON in file '' @ path_str [''bad.json''] @ '': '' @ ''Expecting value'')),
      [([''bad.json''], File ''not json'')])"
proof -
  have h1: "node_at [([''bad.json''], File ''not json'')] [''bad.json''] = Some (File ''not json'')"
    by (simp add: node_at_def)
  have h2: "json_load mini_json ''not json'' = Inl (Exn JSONDecodeError ''Expecting value'')"
    by code_simp
  show ?thesis
    using h1 h2 update_invalid_json_atomic [OF h1 h2, of "[(''k'', PInt 1)]" False] by blast
qed

text \<open>
  When the encoder rejects the merged dictionary the file has already been opened:
  \<^verbatim>\<open>update\<close> fails with the serialization error and the former content is gone.
\<close>

lemma update_not_serializable:
  assumes "wf_fs fs"
      and "node_at fs p = Some (File content)"
      and "json_load J content = Inr (PDict m)"
      and "json_dump J (PDict (dict_update m updates)) 4 False = (out, Some (Exn c msg))"
      and "not_serializable_class c"
  shows "update J fs p updates create_if_not_exists =
           (Inl (JSONError (''Data is not JSON-serializable: '' @ msg)),
            AList.update p (File out) fs)"
proof -
  have "read J fs p = Inr (PDict m)"
    using assms(2,3) by (simp add: read_file)
  moreover have "write_file J fs p (PDict (dict_update m updates)) 4 False True =
                   (Inl (JSONError (''Data is not JSON-serializable: '' @ msg)),
                    AList.update p (File out) fs)"
    using assms(4,5) by (simp add: write_file_existing [OF assms(1,2)])
  moreover have "path_exists fs p" using assms(2) by (simp add: path_exists_def)
  ultimately show ?thesis by (simp add: update_def)
qed

lemma update_examples:
  "update mini_json [([''f.json''], File ''[1]'')] [''f.json''] [(''k'', PObject ''set'')] False =
     (Inl (JSONError ''Data is not JSON-serializable: Object of type set is not JSON serializable''),
      [([''f.json''],
        File (fst (json_dump mini_json (PDict [(''k'', PObject ''set'')]) 4 False)))])"
  "update mini_json [] [''f.json''] [(''k'', PInt 1)] False =
     (Inl (JSONFileError ''File not found: /f.json''), [])"
  "fst (update mini_json [] [''f.json''] [(''k'', PInt 1)] True) = Inr [(''k'', PInt 1)]"
  by code_simp+

section \<open>Deleting\<close>

text \<open>A path that does not exist: \<^verbatim>\<open>delete\<close> returns false and raises nothing.\<close>

lemma delete_missing:
  "\<not> path_exists fs p \<Longrightarrow> delete fs p = (Inr False, fs)"
  by (simp add: delete_def)

section \<open>Creating\<close>

text \<open>
  Claim C9.  On a path that exists, \<^verbatim>\<open>create\<close> without \<^verbatim>\<open>overwrite\<close> returns false
  and the file system, the content at the path included, is what it was.
\<close>

theorem create_no_clobber:
  "path_exists fs p \<Longrightarrow> create J fs p data False indent ensure_ascii = (Inr False, fs)"
  by (simp add: create_def)

theorem create_no_clobber_witness:
  "path_exists [([''a.json''], File ''{}'')] [''a.json''] \<and>
   create mini_json [([''a.json''], File ''{}'')] [''a.json''] (PInt 1) False 4 False =
     (Inr False, [([''a.json''], File ''{}'')])"
proof -
  have h: "path_exists [([''a.json''], File ''{}'')] [''a.json'']"
    by (simp add: path_exists_def node_at_def)
  show ?thesis
    using h create_no_clobber [OF h, of mini_json "PInt 1" 4 False] by simp
qed

section \<open>Bulk loading\<close>




lemma find_append:
  "List.find P (xs @ ys) = (case List.find P xs of Some x \<Rightarrow> Some x | None \<Rightarrow> List.find P ys)"
  by (induction xs) auto

lemma bulk_result_Cons:
  "bulk_result J fs (p # ps) k =
     (case latest_with_stem ps k of
        Some q \<Rightarrow> bulk_result J fs ps k
      | None \<Rightarrow> if stem p = k
                then (case open_and_load J fs p of Inr v \<Rightarrow> Some v | Inl e \<Rightarrow> None)
                else None)"
  by (simp add: bulk_result_def latest_with_stem_def find_append split: option.splits)

lemma find_in_set: "List.find P xs = Some x \<Longrightarrow> x \<in> set xs"
  by (induction xs) (auto split: if_splits)

lemma latest_in_set: "latest_with_stem ps k = Some q \<Longrightarrow> q \<in> set ps"
  using find_in_set [of "\<lambda>p. stem p = k" "rev ps" q] by (simp add: latest_with_stem_def)

lemma bulk_result_parses:
  assumes "\<forall>p\<in>set ps. parses J fs p"
  shows "bulk_result J fs ps k = None \<longleftrightarrow> latest_with_stem ps k = None"
proof (cases "latest_with_stem ps k")
  case None
  then show ?thesis by (simp add: bulk_result_def)
next
  case (Some q)
  with assms have "parses J fs q" by (auto dest: latest_in_set)
  with Some show ?thesis
    by (auto simp: bulk_result_def parses_def split: sum.splits)
qed

lemma load_all_result:
  assumes "\<forall>p\<in>set ps. is_file fs p \<longrightarrow> parses J fs p"
  shows "\<exists>res. load_all J fs ps acc = Inr res \<and>
           (\<forall>k. map_of res k =
                  (case bulk_result J fs (filter (is_file fs) ps) k of
                     Some v \<Rightarrow> Some v
                   | None \<Rightarrow> map_of acc k)) \<and>
           (distinct (map fst acc) \<longrightarrow> distinct (map fst res))"
  using assms
proof (induction ps arbitrary: acc)
  case Nil
  then show ?case by (simp add: bulk_result_def latest_with_stem_def)
next
  case (Cons p ps)
  then have rest: "\<forall>q\<in>set ps. is_file fs q \<longrightarrow> parses J fs q" by simp
  then have fp: "\<forall>q\<in>set (filter (is_file fs) ps). parses J fs q" by simp
  show ?case
  proof (cases "is_file fs p")
    case False
    with Cons.IH [OF rest, of acc] show ?thesis by simp
  next
    case True
    with Cons.prems obtain v where v: "open_and_load J fs p = Inr v"
      by (auto simp: parses_def split: sum.splits)
    from Cons.IH [OF rest, of "dict_set acc (stem p) v"]
    obtain res where
      r1: "load_all J fs ps (dict_set acc (stem p) v) = Inr res" and
      r2: "\<And>k. map_of res k =
             (case bulk_result J fs (filter (is_file fs) ps) k of
                Some w \<Rightarrow> Some w
              | None \<Rightarrow> map_of (dict_set acc (stem p) v) k)" and
      r3: "distinct (map fst (dict_set acc (stem p) v)) \<longrightarrow> distinct (map fst res)"
      by blast
    have "load_all J fs (p # ps) acc = Inr res"
      using True v r1 by simp
    moreover have "map_of res k =
            (case bulk_result J fs (filter (is_file fs) (p # ps)) k of
               Some w \<Rightarrow> Some w
             | None \<Rightarrow> map_of acc k)" for k
    proof (cases "latest_with_stem (filter (is_file fs) ps) k")
      case None
      then have "bulk_result J fs (filter (is_file fs) ps) k = None"
        by (simp add: bulk_result_def)
      with None True v show ?thesis
        by (simp add: r2 bulk_result_Cons dict_set_def update_conv')
    next
      case (Some q)
      with True show ?thesis
        by (simp add: r2 bulk_result_Cons bulk_result_parses [OF fp] split: option.splits)
    qed
    moreover have "distinct (map fst acc) \<longrightarrow> distinct (map fst res)"
      using r3 by (simp add: dict_set_def distinct_update)
    ultimately show ?thesis by blast
  qed
qed

lemma files_of_glob:
  "node_at fs d = Some Dir \<Longrightarrow>
   filter (is_file fs) (glob fs d recursive) = matched_files fs d recursive"
  by (auto simp: glob_def matched_files_def matches_json_def intro: filter_cong)

text \<open>
  Claim C8.  For an existing directory whose matched files all parse, \<^verbatim>\<open>auto\<close>
  returns a dictionary and leaves the file system alone; under each key the
  dictionary holds the parsed content of the latest regular file, in traversal order,
  that is named \<^verbatim>\<open>*.json\<close>, lies in the directory (below it when \<open>recursive\<close>) and has
  the key as its stem, and it has no other keys.
\<close>

theorem auto_bulk_load:
  assumes "node_at fs d = Some Dir"
      and "list_all (parses J fs) (matched_files fs d recursive)"
  shows "\<exists>result. auto J fs d recursive create_if_not_exists = (Inr result, fs) \<and>
           (\<forall>k. map_of result k = bulk_result J fs (matched_files fs d recursive) k) \<and>
           distinct (map fst result)"
proof -
  have ex: "path_exists fs d" using assms(1) by (simp add: path_exists_def)
  have "\<forall>p\<in>set (glob fs d recursive). is_file fs p \<longrightarrow> parses J fs p"
    using assms(2) files_of_glob [OF assms(1), of recursive, symmetric]
    by (simp add: list_all_iff)
  from load_all_result [OF this, of "[]"]
  obtain res where
    "load_all J fs (glob fs d recursive) [] = Inr res" and
    "\<And>k. map_of res k =
        (case bulk_result J fs (filter (is_file fs) (glob fs d recursive)) k of
           Some v \<Rightarrow> Some v
         | None \<Rightarrow> map_of [] k)" and
    "distinct (map fst res)"
    by auto
  then show ?thesis
    using ex by (auto simp: auto_def files_of_glob [OF assms(1)] split: option.splits)
qed

theorem auto_bulk_load_witness:
  "node_at [([''dir''], Dir), ([''dir'', ''a.json''], File ''{\"x\":1}''), ([''dir'', ''sub''], Dir),
            ([''dir'', ''sub'', ''b.json''], File ''{\"y\":2}'')] [''dir''] = Some Dir \<and>
   list_all (parses mini_json
               [([''dir''], Dir), ([''dir'', ''a.json''], File ''{\"x\":1}''), ([''dir'', ''sub''], Dir),
                ([''dir'', ''sub'', ''b.json''], File ''{\"y\":2}'')])
     (matched_files
        [([''dir''], Dir), ([''dir'', ''a.json''], File ''{\"x\":1}''), ([''dir'', ''sub''], Dir),
         ([''dir'', ''sub'', ''b.json''], File ''{\"y\":2}'')] [''dir''] True) \<and>
   auto mini_json
     [([''dir''], Dir), ([''dir'', ''a.json''], File ''{\"x\":1}''), ([''dir'', ''sub''], Dir),
      ([''dir'', ''sub'', ''b.json''], File ''{\"y\":2}'')] [''dir''] True False =
     (Inr [(''a'', PDict [(''x'', PInt 1)]), (''b'', PDict [(''y'', PInt 2)])],
      [([''dir''], Dir), ([''dir'', ''a.json''], File ''{\"x\":1}''), ([''dir'', ''sub''], Dir),
       ([''dir'', ''sub'', ''b.json''], File ''{\"y\":2}'')]) \<and>
   (\<forall>k. map_of [(''a'', PDict [(''x'', PInt 1)]), (''b'', PDict [(''y'', PInt 2)])] k =
        bulk_result mini_json
          [([''dir''], Dir), ([''dir'', ''a.json''], File ''{\"x\":1}''), ([''dir'', ''sub''], Dir),
           ([''dir'', ''sub'', ''b.json''], File ''{\"y\":2}'')]
          (matched_files
             [([''dir''], Dir), ([''dir'', ''a.json''], File ''{\"x\":1}''), ([''dir'', ''sub''], Dir),
              ([''dir'', ''sub'', ''b.json''], File ''{\"y\":2}'')] [''dir''] True) k)"
proof -
  have h1: "node_at [([''dir''], Dir), ([''dir'', ''a.json''], File ''{\"x\":1}''), ([''dir'', ''sub''], Dir),
            ([''dir'', ''sub'', ''b.json''], File ''{\"y\":2}'')] [''dir''] = Some Dir"
    by code_simp
  have h2: "list_all (parses mini_json
               [([''dir''], Dir), ([''dir'', ''a.json''], File ''{\"x\":1}''), ([''dir'', ''sub''], Dir),
                ([''dir'', ''sub'', ''b.json''], File ''{\"y\":2}'')])
     (matched_files
        [([''dir''], Dir), ([''dir'', ''a.json''], File ''{\"x\":1}''), ([''dir'', ''sub''], Dir),
         ([''dir'', ''sub'', ''b.json''], File ''{\"y\":2}'')] [''dir''] True)"
    by code_simp
  have e: "auto mini_json
     [([''dir''], Dir), ([''dir'', ''a.json''], File ''{\"x\":1}''), ([''dir'', ''sub''], Dir),
      ([''dir'', ''sub'', ''b.json''], File ''{\"y\":2}'')] [''dir''] True False =
     (Inr [(''a'', PDict [(''x'', PInt 1)]), (''b'', PDict [(''y'', PInt 2)])],
      [([''dir''], Dir), ([''dir'', ''a.json''], File ''{\"x\":1}''), ([''dir'', ''sub''], Dir),
       ([''dir'', ''sub'', ''b.json''], File ''{\"y\":2}'')])"
    by code_simp
  show ?thesis
    using h1 h2 e auto_bulk_load [OF h1 h2, of False] by auto
qed

lemma auto_examples:
  "auto mini_json
     [([''dir''], Dir), ([''dir'', ''a.json''], File ''{\"x\":1}''), ([''dir'', ''sub''], Dir),
      ([''dir'', ''sub'', ''b.json''], File ''{\"y\":2}'')] [''dir''] False False =
     (Inr [(''a'', PDict [(''x'', PInt 1)])],
      [([''dir''], Dir), ([''dir'', ''a.json''], File ''{\"x\":1}''), ([''dir'', ''sub''], Dir),
       ([''dir'', ''sub'', ''b.json''], File ''{\"y\":2}'')])"
  "fst (auto mini_json
     [([''dir''], Dir), ([''dir'', ''a.json''], File ''[1]''), ([''dir'', ''sub''], Dir),
      ([''dir'', ''sub'', ''a.json''], File ''[2]''), ([''dir'', ''c.json''], Dir)] [''dir''] True False) =
     Inr [(''a'', PList [PInt 2])]"
  by code_simp+

lemma load_all_failure:
  assumes "List.find (\<lambda>p. is_file fs p \<and> \<not> parses J fs p) ps = Some p"
  shows "\<exists>e. open_and_load J fs p = Inl e \<and> load_all J fs ps acc = Inl (auto_except p e)"
  using assms
proof (induction ps arbitrary: acc)
  case Nil
  then show ?case by simp
next
  case (Cons q ps)
  show ?case
  proof (cases "is_file fs q \<and> \<not> parses J fs q")
    case True
    with Cons.prems have "q = p" by simp
    with True show ?thesis by (auto simp: parses_def split: sum.splits)
  next
    case False
    with Cons.prems have "List.find (\<lambda>p. is_file fs p \<and> \<not> parses J fs p) ps = Some p"
      by simp
    from Cons.IH [OF this] False show ?thesis
      by (auto simp: parses_def split: sum.splits)
  qed
qed

lemma find_filter:
  "List.find P (filter Q xs) = List.find (\<lambda>x. Q x \<and> P x) xs"
  by (induction xs) auto

text \<open>The first matched file that does not parse ends the call with its error.\<close>

lemma auto_first_failure:
  assumes "node_at fs d = Some Dir"
      and "List.find (\<lambda>p. \<not> parses J fs p) (matched_files fs d recursive) = Some p"
  shows "\<exists>e. open_and_load J fs p = Inl e \<and>
           auto J fs d recursive create_if_not_exists = (Inl (auto_except p e), fs)"
proof -
  have "List.find (\<lambda>p. is_file fs p \<and> \<not> parses J fs p) (glob fs d recursive) = Some p"
    using assms(2) by (simp add: files_of_glob [OF assms(1), symmetric] find_filter)
  from load_all_failure [OF this, of "[]"] assms(1) show ?thesis
    by (auto simp: auto_def path_exists_def)
qed

end
